theory Spec2Isabelle
  imports Main "HOL-Library.Sublist"
begin

section \<open>JavaScript strings and values\<close>

text \<open>
  The frontend sources are JavaScript. A string is modelled as a \<open>string\<close>, a list of
  characters: the code units below 256 (Latin-1). The white-space class is JavaScript's on
  these characters; the case mappings are those of the ASCII letters, in which the tables of
  this program (forbidden ingredients, difficulty names) are written.
\<close>

definition toLowerChar :: "char \<Rightarrow> char" where
  "toLowerChar c =
     (let n = (of_char c :: nat) in if 65 \<le> n \<and> n \<le> 90 then char_of (n + 32) else c)"

definition toUpperChar :: "char \<Rightarrow> char" where
  "toUpperChar c =
     (let n = (of_char c :: nat) in if 97 \<le> n \<and> n \<le> 122 then char_of (n - 32) else c)"

definition toLowerCase :: "string \<Rightarrow> string" where
  "toLowerCase s = map toLowerChar s"

definition toUpperCase :: "string \<Rightarrow> string" where
  "toUpperCase s = map toUpperChar s"

text \<open>White space as \<open>trim\<close> and the regular-expression class \<open>\s\<close> see it:
  tab, line feed, vertical tab, form feed, carriage return, space and the no-break space
  (U+00A0).\<close>

definition is_space :: "char \<Rightarrow> bool" where
  "is_space c = (let n = (of_char c :: nat) in (9 \<le> n \<and> n \<le> 13) \<or> n = 32 \<or> n = 160)"

definition trim :: "string \<Rightarrow> string" where
  "trim s = rev (dropWhile is_space (rev (dropWhile is_space s)))"

text \<open>\<open>s.split(c)\<close> for a one-character separator: the pieces between the occurrences
  of \<open>c\<close>, in order; the empty string gives one empty piece.\<close>

fun split_on :: "char \<Rightarrow> string \<Rightarrow> string list" where
  "split_on c [] = [[]]"
| "split_on c (x # xs) =
     (if x = c then [] # split_on c xs
      else (case split_on c xs of [] \<Rightarrow> [[x]] | p # ps \<Rightarrow> (x # p) # ps))"

text \<open>The values a field of a recipe object received from outside can hold; the numbers
  are the integers.\<close>

datatype jsval =
    JUndefined
  | JNull
  | JBool bool
  | JNum int
  | JStr string
  | JArr "jsval list"
  | JObj "(string \<times> jsval) list"

text \<open>Truthiness, as \<open>||\<close> and \<open>&&\<close> test it.\<close>

fun truthy :: "jsval \<Rightarrow> bool" where
  "truthy JUndefined = False"
| "truthy JNull = False"
| "truthy (JBool b) = b"
| "truthy (JNum n) = (n \<noteq> 0)"
| "truthy (JStr s) = (s \<noteq> [])"
| "truthy (JArr _) = True"
| "truthy (JObj _) = True"

text \<open>\<open>a || b\<close>.\<close>

definition js_or :: "jsval \<Rightarrow> jsval \<Rightarrow> jsval" where
  "js_or a b = (if truthy a then a else b)"

text \<open>Property access \<open>v.k\<close> on a value that is not null or undefined: an absent property
  reads as \<open>undefined\<close>.\<close>

fun get_prop :: "jsval \<Rightarrow> string \<Rightarrow> jsval" where
  "get_prop (JObj kvs) k = (case map_of kvs k of None \<Rightarrow> JUndefined | Some v \<Rightarrow> v)"
| "get_prop _ k = JUndefined"

datatype js_error = TypeError

section \<open>\<open>cleanRecipeData\<close> (frontend/src/services/api.js)\<close>

record clean_ingredient =
  ing_name :: string
  ing_amount :: jsval
  ing_unit :: jsval
  ing_notes :: jsval

record cleaned_recipe =
  cr_title :: string
  cr_description :: jsval
  cr_instructions :: jsval
  cr_ingredients :: "clean_ingredient list"
  cr_prep_time :: jsval
  cr_cook_time :: jsval
  cr_servings :: jsval
  cr_difficulty :: string

definition validDifficulties :: "string list" where
  "validDifficulties = [''Easy'', ''Medium'', ''Hard'', ''Expert'']"

text \<open>The immediately-invoked function computing \<open>difficulty\<close>. \<open>diff.charAt\<close> exists
  only on a string: any other truthy value raises a TypeError.\<close>

definition clean_difficulty :: "jsval \<Rightarrow> js_error + string" where
  "clean_difficulty d =
     (case js_or d (JStr ''Medium'') of
        JStr diff \<Rightarrow>
          (let normalized = toUpperCase (take 1 diff) @ toLowerCase (drop 1 diff)
           in Inr (if normalized \<in> set validDifficulties then normalized else ''Medium''))
      | _ \<Rightarrow> Inl TypeError)"

text \<open>\<open>typeof v === 'string' ? v.trim() : dflt\<close>.\<close>

definition trim_or :: "jsval \<Rightarrow> jsval \<Rightarrow> jsval" where
  "trim_or v dflt = (case v of JStr s \<Rightarrow> JStr (trim s) | _ \<Rightarrow> dflt)"

text \<open>One element of \<open>recipe.ingredients\<close> under the \<open>map\<close> callback; \<open>None\<close> is the
  callback's \<open>null\<close>. An array is an object without the named properties.\<close>

fun clean_ing :: "jsval \<Rightarrow> clean_ingredient option" where
  "clean_ing (JStr s) =
     Some \<lparr>ing_name = trim s, ing_amount = JNull, ing_unit = JNull, ing_notes = JNull\<rparr>"
| "clean_ing (JObj kvs) =
     Some \<lparr>ing_name = (case get_prop (JObj kvs) ''name'' of JStr n \<Rightarrow> trim n | _ \<Rightarrow> []),
           ing_amount = js_or (get_prop (JObj kvs) ''amount'') JNull,
           ing_unit = trim_or (get_prop (JObj kvs) ''unit'') JNull,
           ing_notes = trim_or (get_prop (JObj kvs) ''notes'') JNull\<rparr>"
| "clean_ing (JArr vs) =
     Some \<lparr>ing_name = [], ing_amount = JNull, ing_unit = JNull, ing_notes = JNull\<rparr>"
| "clean_ing _ = None"

text \<open>The \<open>filter\<close> after the \<open>map\<close>: \<open>ing && ing.name && ing.name.length > 0\<close>.\<close>

definition clean_ingredients :: "jsval \<Rightarrow> clean_ingredient list" where
  "clean_ingredients v =
     (case v of
        JArr ings \<Rightarrow>
          List.map_filter
            (\<lambda>ing. case clean_ing ing of
                      None \<Rightarrow> None
                    | Some c \<Rightarrow> if ing_name c \<noteq> [] then Some c else None) ings
      | _ \<Rightarrow> [])"

text \<open>The conversion of \<open>instructions\<close>: a string is split at line feeds, every piece is
  trimmed and the empty pieces are dropped; any other value stays.\<close>

definition split_instructions :: "string \<Rightarrow> string list" where
  "split_instructions s = filter (\<lambda>step. length step > 0) (map trim (split_on CHR 0x0A s))"

definition clean_instructions :: "jsval \<Rightarrow> jsval" where
  "clean_instructions v =
     (case js_or v (JArr []) of
        JStr s \<Rightarrow> JArr (map JStr (split_instructions s))
      | w \<Rightarrow> w)"

definition cleanRecipeData :: "jsval \<Rightarrow> js_error + cleaned_recipe" where
  "cleanRecipeData recipe =
     (case recipe of
        JUndefined \<Rightarrow> Inl TypeError
      | JNull \<Rightarrow> Inl TypeError
      | _ \<Rightarrow>
         (case clean_difficulty (get_prop recipe ''difficulty'') of
            Inl e \<Rightarrow> Inl e
          | Inr diff \<Rightarrow>
              Inr \<lparr>cr_title = (case get_prop recipe ''title'' of JStr t \<Rightarrow> trim t | _ \<Rightarrow> []),
                   cr_description = trim_or (get_prop recipe ''description'') JNull,
                   cr_instructions = clean_instructions (get_prop recipe ''instructions''),
                   cr_ingredients = clean_ingredients (get_prop recipe ''ingredients''),
                   cr_prep_time = js_or (get_prop recipe ''prep_time'') JNull,
                   cr_cook_time = js_or (get_prop recipe ''cook_time'') JNull,
                   cr_servings = js_or (get_prop recipe ''servings'') JNull,
                   cr_difficulty = diff\<rparr>))"

text \<open>The normalisation inside \<open>clean_difficulty\<close>, named for the proofs.\<close>

definition capitalized :: "string \<Rightarrow> string" where
  "capitalized diff = toUpperCase (take 1 diff) @ toLowerCase (drop 1 diff)"

section \<open>\<open>formatInstructions\<close> (the recipe card component)\<close>



















section \<open>\<open>IngredientInput\<close> and the form of \<open>RecipeGenerator\<close>\<close>

text \<open>The state of the ingredient input: the list owned by the form (changed through
  \<open>onChange\<close>), the text in the box and whether the suggestions are shown.\<close>

record ingredient_input =
  ingredients_list :: "string list"
  inputValue :: string
  showSuggestions :: bool

text \<open>\<open>addIngredient(ingredient = inputValue)\<close>: \<open>None\<close> is the call without argument.
  \<open>ingredients.includes(trimmed)\<close> compares with strict equality.\<close>

definition addIngredient :: "ingredient_input \<Rightarrow> string option \<Rightarrow> ingredient_input" where
  "addIngredient st arg =
     (let ingredient = (case arg of None \<Rightarrow> inputValue st | Some i \<Rightarrow> i);
          trimmed = trim ingredient
      in if trimmed \<noteq> [] \<and> trimmed \<notin> set (ingredients_list st)
         then st\<lparr>ingredients_list := ingredients_list st @ [trimmed],
                 inputValue := [], showSuggestions := False\<rparr>
         else st)"

definition removeIngredient :: "ingredient_input \<Rightarrow> string \<Rightarrow> ingredient_input" where
  "removeIngredient st ingredient =
     st\<lparr>ingredients_list := filter (\<lambda>item. item \<noteq> ingredient) (ingredients_list st)\<rparr>"

text \<open>The request the form hands to \<open>onGenerate\<close>.\<close>

record generation_request =
  req_ingredients :: "string list"
  req_dietary_preferences :: "string list"
  req_cuisine_type :: "string option"
  req_meal_type :: "string option"

text \<open>\<open>handleSubmit\<close>: with an empty list only a warning is shown and nothing is sent
  (\<open>None\<close>); \<open>cuisineType || null\<close> turns the empty selection into null.\<close>

definition handleSubmit :: "string list \<Rightarrow> string list \<Rightarrow> string \<Rightarrow> string \<Rightarrow> generation_request option" where
  "handleSubmit ingredients dietaryPreferences cuisineType mealType =
     (if length ingredients = 0 then None
      else Some \<lparr>req_ingredients = ingredients,
                 req_dietary_preferences = dietaryPreferences,
                 req_cuisine_type = (if cuisineType = [] then None else Some cuisineType),
                 req_meal_type = (if mealType = [] then None else Some mealType)\<rparr>)"

text \<open>The user's actions on the ingredient list, and the lists they can produce from the
  empty list the form starts with.\<close>

datatype ingredient_action = Add string | Remove string

fun apply_action :: "ingredient_input \<Rightarrow> ingredient_action \<Rightarrow> ingredient_input" where
  "apply_action st (Add i) = addIngredient st (Some i)"
| "apply_action st (Remove i) = removeIngredient st i"

definition initial_input :: ingredient_input where
  "initial_input = \<lparr>ingredients_list = [], inputValue = [], showSuggestions = False\<rparr>"

text \<open>The thirty-one names of \<open>commonIngredients\<close>, the suggestions of the input.\<close>

definition commonIngredients :: "string list" where
  "commonIngredients =
     [''tomatoes'', ''onions'', ''garlic'', ''olive oil'', ''salt'', ''pepper'',
      ''chicken'', ''beef'', ''fish'', ''eggs'', ''milk'', ''cheese'', ''butter'',
      ''rice'', ''pasta'', ''bread'', ''potatoes'', ''carrots'', ''bell peppers'',
      ''mushrooms'', ''spinach'', ''lettuce'', ''basil'', ''oregano'', ''thyme'',
      ''lemon'', ''lime'', ''ginger'', ''soy sauce'', ''honey'', ''vinegar'']"

text \<open>The list holds no name twice, and every name is non-empty and trimmed.\<close>

definition well_kept :: "string list \<Rightarrow> bool" where
  "well_kept xs = (distinct xs \<and> list_all (\<lambda>i. i \<noteq> [] \<and> trim i = i) xs)"

section \<open>\<open>checkDietaryConflicts\<close> (RecipeGenerator.jsx)\<close>

definition dietaryRestrictions :: "(string \<times> string list) list" where
  "dietaryRestrictions =
     [(''vegetarian'', [''chicken'', ''beef'', ''pork'', ''lamb'', ''turkey'', ''duck'', ''fish'',
         ''salmon'', ''tuna'', ''shrimp'', ''crab'', ''lobster'', ''meat'', ''bacon'', ''ham'',
         ''sausage'', ''pepperoni'']),
      (''vegan'', [''chicken'', ''beef'', ''pork'', ''lamb'', ''turkey'', ''duck'', ''fish'',
         ''salmon'', ''tuna'', ''shrimp'', ''crab'', ''lobster'', ''meat'', ''bacon'', ''ham'',
         ''sausage'', ''pepperoni'', ''eggs'', ''milk'', ''cheese'', ''butter'', ''yogurt'',
         ''cream'']),
      (''gluten-free'', [''wheat'', ''barley'', ''rye'', ''flour'', ''bread'', ''pasta'',
         ''noodles'', ''soy sauce'']),
      (''dairy-free'', [''milk'', ''cheese'', ''butter'', ''yogurt'', ''cream'', ''ice cream''])]"

text \<open>\<open>s.includes(sub)\<close> on strings: \<open>sub\<close> occurs in \<open>s\<close> at some position.\<close>

fun js_includes :: "string \<Rightarrow> string \<Rightarrow> bool" where
  "js_includes [] sub = (sub = [])"
| "js_includes (c # cs) sub = (prefix sub (c # cs) \<or> js_includes cs sub)"

record conflict =
  diet :: string
  conflict_ingredients :: "string list"

text \<open>The ingredients that contain, in lower case, a forbidden name of the table.\<close>

definition conflictingIngredients :: "string list \<Rightarrow> string list \<Rightarrow> string list" where
  "conflictingIngredients forbiddenIngredients ingredients =
     filter (\<lambda>ingredient.
        list_ex (\<lambda>forbidden. js_includes (toLowerCase ingredient) (toLowerCase forbidden))
          forbiddenIngredients) ingredients"

text \<open>The diets are the options of the form's check boxes, so the lookup in the table
  is a lookup among its four keys.\<close>

definition checkDietaryConflicts :: "string list \<Rightarrow> string list \<Rightarrow> conflict list" where
  "checkDietaryConflicts dietaryPreferences ingredients =
     foldl (\<lambda>conflicts d.
        (case map_of dietaryRestrictions (toLowerCase d) of
           None \<Rightarrow> conflicts
         | Some forbiddenIngredients \<Rightarrow>
             (let found = conflictingIngredients forbiddenIngredients ingredients
              in if length found > 0
                 then conflicts @ [\<lparr>diet = d, conflict_ingredients = found\<rparr>]
                 else conflicts)))
       [] dietaryPreferences"

text \<open>What one diet adds to the conflicts, named for the proofs.\<close>

definition diet_conflicts :: "string list \<Rightarrow> string \<Rightarrow> conflict list" where
  "diet_conflicts ingredients d =
     (case map_of dietaryRestrictions (toLowerCase d) of
        None \<Rightarrow> []
      | Some forbiddenIngredients \<Rightarrow>
          (if conflictingIngredients forbiddenIngredients ingredients \<noteq> []
           then [\<lparr>diet = d,
                  conflict_ingredients = conflictingIngredients forbiddenIngredients ingredients\<rparr>]
           else []))"

section \<open>\<open>retryRequest\<close> and \<open>recipeAPI.generateRecipes\<close> (frontend/src/services/api.js)\<close>

text \<open>What the retry test reads of a rejected request: \<open>error.code\<close> and
  \<open>error.response?.status\<close>.\<close>

record request_error =
  err_code :: "string option"
  err_response_status :: "nat option"

definition MAX_RETRIES :: nat where
  "MAX_RETRIES = 3"

definition RETRY_DELAY :: nat where
  "RETRY_DELAY = 1000"

definition retryable :: "request_error \<Rightarrow> bool" where
  "retryable error =
     (err_code error = Some ''ECONNABORTED'' \<or>
      (case err_response_status error of None \<Rightarrow> False | Some st \<Rightarrow> st \<ge> 500))"

text \<open>\<open>requestFn\<close> is an effect: \<open>requestFn k\<close> is what the call number \<open>k\<close> sent to
  the backend comes back with. The state threaded through is the number of calls sent so far;
  the result pairs the outcome with that number and the time spent waiting between
  attempts.\<close>

fun retryRequest ::
  "(nat \<Rightarrow> request_error + 'a) \<Rightarrow> nat \<Rightarrow> nat \<times> nat \<Rightarrow> (request_error + 'a) \<times> nat \<times> nat" where
  "retryRequest requestFn 0 (calls, waited) = (requestFn calls, Suc calls, waited)"
| "retryRequest requestFn (Suc retries) (calls, waited) =
     (case requestFn calls of
        Inr v \<Rightarrow> (Inr v, Suc calls, waited)
      | Inl error \<Rightarrow>
          if retryable error
          then retryRequest requestFn retries (Suc calls, waited + RETRY_DELAY)
          else (Inl error, Suc calls, waited))"

text \<open>\<open>generateRecipes\<close>: the POST to \<open>/api/recipes/generate\<close> under \<open>retryRequest\<close>
  with its default number of retries.\<close>

definition generateRecipes ::
  "(nat \<Rightarrow> request_error + 'a) \<Rightarrow> nat \<times> nat \<Rightarrow> (request_error + 'a) \<times> nat \<times> nat" where
  "generateRecipes post st = retryRequest post MAX_RETRIES st"

text \<open>The outcome of a call is a failure the retry test accepts.\<close>

definition retryable_failure :: "request_error + 'a \<Rightarrow> bool" where
  "retryable_failure out = (case out of Inl e \<Rightarrow> retryable e | Inr v \<Rightarrow> False)"

section \<open>The backend service (ASYNC\_LLM\_IMPLEMENTATION.md, README.md)\<close>

text \<open>
  The backend is Python; the source holds it as the listings of the two documents. An
  exception is a value; \<open>except Exception\<close> catches every one of them.
\<close>

datatype py_exception =
    TimeoutError
  | GeminiAPIError nat
  | ClientError
  | ParseFailure
  | CircuitOpen
  | HTTPException nat string

subsection \<open>\<open>_parse_response\<close> (README.md)\<close>





subsection \<open>The asynchronous service\<close>




text \<open>
  \<open>GeminiService.generate_recipes\<close> of the service layer: only the time-out is caught and
  answered with the fallback recipes (\<open>fallback\<close> is what \<open>_get_fallback_recipes_async\<close>
  returns). The semaphore bounds how many calls run at once and does not change a result.
\<close>

definition generate_recipes :: "py_exception + 'r \<Rightarrow> 'r \<Rightarrow> py_exception + 'r" where
  "generate_recipes call fallback =
     (case call of
        Inr recipes \<Rightarrow> Inr recipes
      | Inl TimeoutError \<Rightarrow> Inr fallback
      | Inl e \<Rightarrow> Inl e)"

text \<open>
  \<open>generate_recipes\<close> of the section on graceful degradation: the asynchronous call, then
  the synchronous call in the thread pool, then the static recipes.
\<close>

definition generate_recipes_graceful ::
  "py_exception + 'r \<Rightarrow> py_exception + 'r \<Rightarrow> 'r \<Rightarrow> py_exception + 'r" where
  "generate_recipes_graceful async_call sync_fallback fallback =
     (case async_call of
        Inr recipes \<Rightarrow> Inr recipes
      | Inl e \<Rightarrow>
          (case sync_fallback of
             Inr recipes \<Rightarrow> Inr recipes
           | Inl e' \<Rightarrow> Inr fallback))"

text \<open>The body of the endpoint \<open>POST /recipes/generate\<close> and what its background task
  logs.\<close>

record 'r generate_response =
  resp_recipes :: "'r list"
  resp_status :: string

datatype log_entry = LogSuccess nat | LogFailure py_exception

definition generate_recipes_endpoint ::
  "py_exception + 'r list \<Rightarrow> (py_exception + 'r generate_response) \<times> log_entry" where
  "generate_recipes_endpoint service_result =
     (case service_result of
        Inr rs \<Rightarrow> (Inr \<lparr>resp_recipes = rs, resp_status = ''success''\<rparr>, LogSuccess (length rs))
      | Inl e \<Rightarrow> (Inl (HTTPException 500 ''Generation failed''), LogFailure e))"

subsection \<open>Batch generation\<close>

record request_dict =
  rd_ingredients :: "string list"
  rd_cuisine_type :: "string option"
  rd_dietary_preferences :: "string list"

text \<open>
  \<open>asyncio.gather(*tasks, return_exceptions=True)\<close>. The tasks finish in an order the
  program does not choose: \<open>schedule\<close> lists the indices of the tasks in the order of their
  completion. A finished task puts its outcome (a result or the exception it raised) in the
  slot of its own index; \<open>gather\<close> returns when every slot is filled, and \<open>None\<close> says
  that it never does.
\<close>

definition gather :: "nat list \<Rightarrow> 'a list \<Rightarrow> 'a list option" where
  "gather schedule tasks =
     (let slots = foldl (\<lambda>slots i. if i < length tasks then slots[i := Some (tasks ! i)] else slots)
                    (replicate (length tasks) None) schedule
      in if list_all (\<lambda>slot. slot \<noteq> None) slots then Some (map the slots) else None)"

text \<open>
  \<open>generate_multiple_recipes\<close>. \<open>gen i ingredients cuisine_type\<close> is the outcome of the
  \<open>generate_recipes\<close> task with index \<open>i\<close>; \<open>fallback\<close> is what
  \<open>_get_fallback_recipes_async\<close> returns; \<open>started\<close> is the log of the calls of
  \<open>generate_recipes\<close> made so far.
\<close>

definition generate_multiple_recipes ::
  "(nat \<Rightarrow> string list \<Rightarrow> string option \<Rightarrow> py_exception + 'r list) \<Rightarrow> 'r list \<Rightarrow> nat list \<Rightarrow>
   request_dict list \<Rightarrow> (string list \<times> string option) list \<Rightarrow>
   'r list list option \<times> (string list \<times> string option) list" where
  "generate_multiple_recipes gen fallback schedule requests started =
     (let tasks = map (\<lambda>(i, req). gen i (rd_ingredients req) (rd_cuisine_type req))
                    (enumerate 0 requests);
          started' = started @ map (\<lambda>req. (rd_ingredients req, rd_cuisine_type req)) requests
      in case gather schedule tasks of
           None \<Rightarrow> (None, started')
         | Some results \<Rightarrow>
             (Some (map (\<lambda>result. case result of Inl e \<Rightarrow> fallback | Inr rs \<Rightarrow> rs) results),
              started'))"

record RecipeGenerateRequest =
  rg_ingredients :: "string list"
  rg_dietary_preferences :: "string list"
  rg_cuisine_type :: "string option"

record 'r batch_response =
  recipe_sets :: "'r list list"
  total_recipes :: nat
  concurrent_processing :: bool

text \<open>The endpoint \<open>POST /recipes/generate-batch\<close>.\<close>

definition generate_recipes_batch ::
  "(nat \<Rightarrow> string list \<Rightarrow> string option \<Rightarrow> py_exception + 'r list) \<Rightarrow> 'r list \<Rightarrow> nat list \<Rightarrow>
   RecipeGenerateRequest list \<Rightarrow> (string list \<times> string option) list \<Rightarrow>
   (py_exception + 'r batch_response) option \<times> (string list \<times> string option) list" where
  "generate_recipes_batch gen fallback schedule requests started =
     (if length requests > 5
      then (Some (Inl (HTTPException 400 ''Maximum 5 concurrent requests'')), started)
      else
        (let request_dicts =
               map (\<lambda>req. \<lparr>rd_ingredients = rg_ingredients req,
                              rd_cuisine_type = rg_cuisine_type req,
                              rd_dietary_preferences = rg_dietary_preferences req\<rparr>) requests
         in case generate_multiple_recipes gen fallback schedule request_dicts started of
              (None, started') \<Rightarrow> (None, started')
            | (Some results, started') \<Rightarrow>
                (Some (Inr \<lparr>recipe_sets = results,
                             total_recipes = sum_list (map length results),
                             concurrent_processing = True\<rparr>), started')))"

text \<open>The recipes answered for the request with index \<open>i\<close>: its own, or the fallback when
  its generation raised.\<close>

definition result_for ::
  "(nat \<Rightarrow> string list \<Rightarrow> string option \<Rightarrow> py_exception + 'r list) \<Rightarrow> 'r list \<Rightarrow>
   RecipeGenerateRequest list \<Rightarrow> nat \<Rightarrow> 'r list" where
  "result_for gen fallback requests i =
     (case gen i (rg_ingredients (requests ! i)) (rg_cuisine_type (requests ! i)) of
        Inl e \<Rightarrow> fallback
      | Inr rs \<Rightarrow> rs)"

subsection \<open>The circuit breaker\<close>

datatype CircuitState = CLOSED | OPEN | HALF_OPEN

text \<open>
  The listing sets \<open>failure_threshold\<close>, \<open>recovery_timeout\<close> and \<open>state\<close>. The failure
  counter and the time of the last failure are the "rolling failure counter" and the
  "cool-down timer" of the specification, which the three helpers below work on.
\<close>

record CircuitBreaker =
  failure_threshold :: nat
  recovery_timeout :: nat
  state :: CircuitState
  failure_count :: nat
  last_failure_time :: nat

text \<open>\<open>__init__(failure_threshold=3, recovery_timeout=30)\<close>.\<close>

definition init_breaker :: "nat \<Rightarrow> nat \<Rightarrow> CircuitBreaker" where
  "init_breaker threshold timeout =
     \<lparr>failure_threshold = threshold, recovery_timeout = timeout, state = CLOSED,
      failure_count = 0, last_failure_time = 0\<rparr>"

definition default_breaker :: CircuitBreaker where
  "default_breaker = init_breaker 3 30"

text \<open>Modelled from the spec: \<open>_should_attempt_reset\<close> is called by the listing and not
  defined in it. "Stays open for a fixed cool-down", "Open to HalfOpen only after cool-down
  elapses": the reset is attempted once the cool-down has passed since the last failure.\<close>

definition should_attempt_reset :: "CircuitBreaker \<Rightarrow> nat \<Rightarrow> bool" where
  "should_attempt_reset cb now = (now \<ge> last_failure_time cb + recovery_timeout cb)"

text \<open>Modelled from the spec: \<open>_on_success\<close> is called by the listing and not defined in
  it. "HalfOpen to Closed on a single success"; a success ends a run of consecutive failures;
  no other transition is made on a success.\<close>

definition on_success :: "CircuitBreaker \<Rightarrow> CircuitBreaker" where
  "on_success cb =
     (case state cb of
        HALF_OPEN \<Rightarrow> cb\<lparr>state := CLOSED, failure_count := 0\<rparr>
      | CLOSED \<Rightarrow> cb\<lparr>failure_count := 0\<rparr>
      | OPEN \<Rightarrow> cb)"

text \<open>Modelled from the spec: \<open>_on_failure\<close> is called by the listing and not defined in
  it. "Opens after F consecutive failures", "HalfOpen to Open on any failure"; the cool-down
  starts at the failure that opens the circuit.\<close>

definition on_failure :: "CircuitBreaker \<Rightarrow> nat \<Rightarrow> CircuitBreaker" where
  "on_failure cb now =
     (case state cb of
        HALF_OPEN \<Rightarrow> cb\<lparr>state := OPEN, last_failure_time := now\<rparr>
      | CLOSED \<Rightarrow>
          (if failure_count cb + 1 \<ge> failure_threshold cb
           then cb\<lparr>state := OPEN, failure_count := failure_count cb + 1, last_failure_time := now\<rparr>
           else cb\<lparr>failure_count := failure_count cb + 1\<rparr>)
      | OPEN \<Rightarrow> cb)"

datatype admission = Allowed | Rejected

text \<open>The first statement of \<open>call\<close>: the check made before the protected function
  runs.\<close>

definition before_call :: "CircuitBreaker \<Rightarrow> nat \<Rightarrow> admission \<times> CircuitBreaker" where
  "before_call cb now =
     (if state cb = OPEN
      then (if should_attempt_reset cb now then (Allowed, cb\<lparr>state := HALF_OPEN\<rparr>)
            else (Rejected, cb))
      else (Allowed, cb))"

text \<open>\<open>call\<close>: \<open>func\<close> is the outcome of the protected function, which runs only when
  the check lets it; \<open>now\<close> is the time of the call and \<open>finished\<close> the time the function
  ends.\<close>

definition call ::
  "CircuitBreaker \<Rightarrow> nat \<Rightarrow> nat \<Rightarrow> py_exception + 'a \<Rightarrow> (py_exception + 'a) \<times> CircuitBreaker" where
  "call cb now finished func =
     (case before_call cb now of
        (Rejected, cb') \<Rightarrow> (Inl CircuitOpen, cb')
      | (Allowed, cb') \<Rightarrow>
          (case func of
             Inr result \<Rightarrow> (Inr result, on_success cb')
           | Inl e \<Rightarrow> (Inl e, on_failure cb' finished)))"

text \<open>The three entry points as events, and the breaker after a sequence of them.\<close>

datatype breaker_event = BeforeCall nat | OnSuccess | OnFailure nat

fun breaker_step :: "CircuitBreaker \<Rightarrow> breaker_event \<Rightarrow> CircuitBreaker" where
  "breaker_step cb (BeforeCall now) = snd (before_call cb now)"
| "breaker_step cb OnSuccess = on_success cb"
| "breaker_step cb (OnFailure now) = on_failure cb now"

text \<open>The transitions the specification allows, each with its condition.\<close>

fun allowed_transition :: "CircuitBreaker \<Rightarrow> breaker_event \<Rightarrow> CircuitState \<Rightarrow> bool" where
  "allowed_transition cb (OnFailure now) OPEN =
     (state cb = HALF_OPEN \<or>
      (state cb = CLOSED \<and> failure_count cb + 1 \<ge> failure_threshold cb))"
| "allowed_transition cb (BeforeCall now) HALF_OPEN =
     (state cb = OPEN \<and> now \<ge> last_failure_time cb + recovery_timeout cb)"
| "allowed_transition cb OnSuccess CLOSED = (state cb = HALF_OPEN)"
| "allowed_transition cb _ _ = False"

text \<open>The breaker made with a threshold and a cool-down, after a sequence of events.\<close>

definition run_breaker :: "nat \<Rightarrow> nat \<Rightarrow> breaker_event list \<Rightarrow> CircuitBreaker" where
  "run_breaker F T es = foldl breaker_step (init_breaker F T) es"

fun is_failure :: "breaker_event \<Rightarrow> bool" where
  "is_failure (OnFailure now) = True"
| "is_failure _ = False"

text \<open>The number of failures reported since the last success.\<close>

definition consecutive_failures :: "breaker_event list \<Rightarrow> nat" where
  "consecutive_failures es = length (filter is_failure (takeWhile (\<lambda>e. e \<noteq> OnSuccess) (rev es)))"

section \<open>Properties of \<open>cleanRecipeData\<close>: the difficulty\<close>

lemma toUpperChar_toLowerChar: "toUpperChar (toLowerChar c) = toUpperChar c"
  unfolding toLowerChar_def toUpperChar_def Let_def
  by (auto simp: of_char_of)

lemma toLowerChar_toUpperChar: "toLowerChar (toUpperChar c) = toLowerChar c"
  unfolding toLowerChar_def toUpperChar_def Let_def
  by (auto simp: of_char_of)

lemma toLowerChar_idem: "toLowerChar (toLowerChar c) = toLowerChar c"
  unfolding toLowerChar_def Let_def
  by (auto simp: of_char_of)

lemma toLowerCase_idem: "toLowerCase (toLowerCase s) = toLowerCase s"
  by (simp add: toLowerCase_def toLowerChar_idem)

lemma capitalized_via_lower: "capitalized (toLowerCase d) = capitalized d"
  by (simp add: capitalized_def toLowerCase_def toUpperCase_def take_map drop_map
      toUpperChar_toLowerChar toLowerChar_idem)

lemma capitalized_cong:
  assumes "toLowerCase d = toLowerCase v"
  shows "capitalized d = capitalized v"
  by (metis assms capitalized_via_lower)

lemma toLowerCase_capitalized: "toLowerCase (capitalized d) = toLowerCase d"
proof -
  have "toLowerCase (capitalized d) = toLowerCase (take 1 d) @ toLowerCase (drop 1 d)"
    by (simp add: capitalized_def toLowerCase_def toUpperCase_def
        toLowerChar_toUpperChar toLowerChar_idem)
  also have "\<dots> = toLowerCase (take 1 d @ drop 1 d)"
    by (simp only: toLowerCase_def map_append)
  finally show ?thesis by simp
qed

lemma capitalized_valid: "v \<in> set validDifficulties \<Longrightarrow> capitalized v = v"
  unfolding validDifficulties_def
  by (auto simp: capitalized_def; code_simp)

lemma clean_difficulty_eq:
  "clean_difficulty (JStr d) =
     Inr (if d = [] then ''Medium''
          else if capitalized d \<in> set validDifficulties then capitalized d else ''Medium'')"
proof -
  have m: "toUpperCase ''M'' @ toLowerCase ''edium'' = ''Medium''" by code_simp
  show ?thesis
    by (simp add: clean_difficulty_def js_or_def capitalized_def Let_def m)
qed

lemma clean_difficulty_falsy:
  "\<not> truthy d \<Longrightarrow> clean_difficulty d = Inr ''Medium''"
  apply (simp add: clean_difficulty_def js_or_def Let_def)
  by code_simp

lemma clean_difficulty_range:
  "clean_difficulty d = Inr s \<Longrightarrow> s \<in> set validDifficulties"
  by (auto simp: clean_difficulty_def js_or_def Let_def validDifficulties_def
      split: jsval.splits if_splits)


lemma cleanRecipeData_Inr:
  "cleanRecipeData recipe = Inr r \<Longrightarrow> clean_difficulty (get_prop recipe ''difficulty'') = Inr (cr_difficulty r)"
  by (auto simp: cleanRecipeData_def split: jsval.splits sum.splits)

lemma cleanRecipeData_total:
  "recipe \<noteq> JUndefined \<Longrightarrow> recipe \<noteq> JNull \<Longrightarrow>
   clean_difficulty (get_prop recipe ''difficulty'') = Inr s \<Longrightarrow>
   \<exists>r. cleanRecipeData recipe = Inr r \<and> cr_difficulty r = s"
  by (cases recipe) (simp_all add: cleanRecipeData_def)

text \<open>
  A record that \<open>cleanRecipeData\<close> returns has one of the difficulties Easy, Medium, Hard,
  Expert. A recipe object whose difficulty is a string or is falsy does get a record back: a
  valid name in any letter casing comes back as that name, capitalised, and a falsy or
  unrecognised string comes back as Medium.
\<close>

lemma cleanRecipeData_difficulty:
  "(\<forall>r. cleanRecipeData recipe = Inr r \<longrightarrow> cr_difficulty r \<in> {''Easy'', ''Medium'', ''Hard'', ''Expert''}) \<and>
   (recipe \<noteq> JUndefined \<and> recipe \<noteq> JNull \<longrightarrow>
      (\<forall>d v. get_prop recipe ''difficulty'' = JStr d \<and> v \<in> {''Easy'', ''Medium'', ''Hard'', ''Expert''} \<and>
             toLowerCase d = toLowerCase v \<longrightarrow>
             (\<exists>r. cleanRecipeData recipe = Inr r \<and> cr_difficulty r = v)) \<and>
      (\<forall>d. get_prop recipe ''difficulty'' = JStr d \<and>
           toLowerCase d \<notin> toLowerCase ` {''Easy'', ''Medium'', ''Hard'', ''Expert''} \<longrightarrow>
           (\<exists>r. cleanRecipeData recipe = Inr r \<and> cr_difficulty r = ''Medium'')) \<and>
      (\<not> truthy (get_prop recipe ''difficulty'') \<longrightarrow>
           (\<exists>r. cleanRecipeData recipe = Inr r \<and> cr_difficulty r = ''Medium'')))"
proof (intro conjI allI impI)
  fix r assume "cleanRecipeData recipe = Inr r"
  then have "cr_difficulty r \<in> set validDifficulties"
    using cleanRecipeData_Inr clean_difficulty_range by blast
  then show "cr_difficulty r \<in> {''Easy'', ''Medium'', ''Hard'', ''Expert''}"
    by (simp add: validDifficulties_def)
next
  fix d v
  assume nn: "recipe \<noteq> JUndefined \<and> recipe \<noteq> JNull"
    and h: "get_prop recipe ''difficulty'' = JStr d \<and> v \<in> {''Easy'', ''Medium'', ''Hard'', ''Expert''} \<and>
             toLowerCase d = toLowerCase v"
  from h have v: "v \<in> set validDifficulties" by (simp add: validDifficulties_def)
  from h have "capitalized d = capitalized v" by (intro capitalized_cong) simp
  with v have c: "capitalized d = v" by (simp add: capitalized_valid)
  have "d \<noteq> []" using h by (auto simp: toLowerCase_def)
  with c v have "clean_difficulty (JStr d) = Inr v" by (simp add: clean_difficulty_eq)
  with nn h show "\<exists>r. cleanRecipeData recipe = Inr r \<and> cr_difficulty r = v"
    by (simp add: cleanRecipeData_total)
next
  fix d
  assume nn: "recipe \<noteq> JUndefined \<and> recipe \<noteq> JNull"
    and h: "get_prop recipe ''difficulty'' = JStr d \<and>
           toLowerCase d \<notin> toLowerCase ` {''Easy'', ''Medium'', ''Hard'', ''Expert''}"
  have "capitalized d \<notin> set validDifficulties \<or> capitalized d = ''Medium''"
  proof (cases "capitalized d \<in> set validDifficulties")
    case True
    then have "capitalized d \<in> {''Easy'', ''Medium'', ''Hard'', ''Expert''}"
      by (simp add: validDifficulties_def)
    then have "toLowerCase (capitalized d) \<in> toLowerCase ` {''Easy'', ''Medium'', ''Hard'', ''Expert''}"
      by (rule imageI)
    with h show ?thesis by (simp add: toLowerCase_capitalized)
  qed simp
  then have "clean_difficulty (JStr d) = Inr ''Medium''"
    by (auto simp: clean_difficulty_eq)
  with nn h show "\<exists>r. cleanRecipeData recipe = Inr r \<and> cr_difficulty r = ''Medium''"
    by (simp add: cleanRecipeData_total)
next
  assume nn: "recipe \<noteq> JUndefined \<and> recipe \<noteq> JNull"
    and "\<not> truthy (get_prop recipe ''difficulty'')"
  then show "\<exists>r. cleanRecipeData recipe = Inr r \<and> cr_difficulty r = ''Medium''"
    by (simp add: cleanRecipeData_total clean_difficulty_falsy)
qed


lemma cleanRecipeData_difficulty_examples:
  "(\<exists>r. cleanRecipeData (JObj [(''difficulty'', JStr ''hARD'')]) = Inr r \<and>
        cr_difficulty r \<in> {''Easy'', ''Medium'', ''Hard'', ''Expert''}) \<and>
   toLowerCase ''hARD'' = toLowerCase ''Hard'' \<and>
   (\<exists>r. cleanRecipeData (JObj [(''difficulty'', JStr ''hARD'')]) = Inr r \<and> cr_difficulty r = ''Hard'') \<and>
   toLowerCase ''spicy'' \<notin> toLowerCase ` {''Easy'', ''Medium'', ''Hard'', ''Expert''} \<and>
   (\<exists>r. cleanRecipeData (JObj [(''difficulty'', JStr ''spicy'')]) = Inr r \<and>
        cr_difficulty r = ''Medium'') \<and>
   \<not> truthy (get_prop (JObj [(''title'', JStr ''Soup'')]) ''difficulty'') \<and>
   (\<exists>r. cleanRecipeData (JObj [(''title'', JStr ''Soup'')]) = Inr r \<and> cr_difficulty r = ''Medium'')"
proof -
  let ?hard = "JObj [(''difficulty'', JStr ''hARD'')]"
  let ?spicy = "JObj [(''difficulty'', JStr ''spicy'')]"
  let ?none = "JObj [(''title'', JStr ''Soup'')]"
  have lower: "toLowerCase ''hARD'' = ''hard''" "toLowerCase ''spicy'' = ''spicy''"
    "toLowerCase ''Easy'' = ''easy''" "toLowerCase ''Medium'' = ''medium''"
    "toLowerCase ''Hard'' = ''hard''" "toLowerCase ''Expert'' = ''expert''"
    by code_simp+
  have b: "toLowerCase ''hARD'' = toLowerCase ''Hard''"
    by (simp only: lower)
  have c: "toLowerCase ''spicy'' \<notin> toLowerCase ` {''Easy'', ''Medium'', ''Hard'', ''Expert''}"
    by (simp add: lower)
  have d: "\<not> truthy (get_prop ?none ''difficulty'')"
    by simp
  have hard: "?hard \<noteq> JUndefined \<and> ?hard \<noteq> JNull"
    "get_prop ?hard ''difficulty'' = JStr ''hARD'' \<and>
       ''Hard'' \<in> {''Easy'', ''Medium'', ''Hard'', ''Expert''} \<and>
       toLowerCase ''hARD'' = toLowerCase ''Hard''"
    using b by simp_all
  have g: "\<exists>r. cleanRecipeData ?hard = Inr r \<and> cr_difficulty r = ''Hard''"
    using hard cleanRecipeData_difficulty [of ?hard] by blast
  have a: "\<exists>r. cleanRecipeData ?hard = Inr r \<and>
             cr_difficulty r \<in> {''Easy'', ''Medium'', ''Hard'', ''Expert''}"
    using g cleanRecipeData_difficulty [of ?hard] by blast
  have spicy: "?spicy \<noteq> JUndefined \<and> ?spicy \<noteq> JNull"
    "get_prop ?spicy ''difficulty'' = JStr ''spicy'' \<and>
       toLowerCase ''spicy'' \<notin> toLowerCase ` {''Easy'', ''Medium'', ''Hard'', ''Expert''}"
    using c by simp_all
  have h: "\<exists>r. cleanRecipeData ?spicy = Inr r \<and> cr_difficulty r = ''Medium''"
    using spicy cleanRecipeData_difficulty [of ?spicy] by blast
  have none: "?none \<noteq> JUndefined \<and> ?none \<noteq> JNull"
    by simp
  have i: "\<exists>r. cleanRecipeData ?none = Inr r \<and> cr_difficulty r = ''Medium''"
    using none d cleanRecipeData_difficulty [of ?none] by blast
  show ?thesis
    by (intro conjI a b g c h d i)
qed

lemma clean_difficulty_not_string:
  assumes "truthy d" and "\<forall>s. d \<noteq> JStr s"
  shows "clean_difficulty d = Inl TypeError"
  using assms by (cases d) (simp_all add: clean_difficulty_def js_or_def)

text \<open>
  C10. A difficulty that is not a string and not falsy is not mapped to Medium: for the
  recipe objects with the difficulty \<open>5\<close> and with the difficulty \<open>true\<close>,
  \<open>cleanRecipeData\<close> raises a TypeError (\<open>diff.charAt\<close> is not a function) and returns no
  record, where the same objects with the unrecognised string ``5'' get Medium.
\<close>

theorem cleanRecipeData_difficulty_not_string:
  "cleanRecipeData (JObj [(''title'', JStr ''Soup''), (''difficulty'', JNum 5)]) = Inl TypeError \<and>
   cleanRecipeData (JObj [(''title'', JStr ''Soup''), (''difficulty'', JBool True)]) = Inl TypeError \<and>
   cleanRecipeData (JObj [(''title'', JStr ''Soup''), (''difficulty'', JStr ''5'')]) =
     Inr \<lparr>cr_title = ''Soup'', cr_description = JNull, cr_instructions = JArr [],
          cr_ingredients = [], cr_prep_time = JNull, cr_cook_time = JNull, cr_servings = JNull,
          cr_difficulty = ''Medium''\<rparr>"
proof (intro conjI)
  show "cleanRecipeData (JObj [(''title'', JStr ''Soup''), (''difficulty'', JNum 5)]) = Inl TypeError"
    by (simp add: cleanRecipeData_def clean_difficulty_not_string)
  show "cleanRecipeData (JObj [(''title'', JStr ''Soup''), (''difficulty'', JBool True)]) = Inl TypeError"
    by (simp add: cleanRecipeData_def clean_difficulty_not_string)
  show "cleanRecipeData (JObj [(''title'', JStr ''Soup''), (''difficulty'', JStr ''5'')]) =
     Inr \<lparr>cr_title = ''Soup'', cr_description = JNull, cr_instructions = JArr [],
          cr_ingredients = [], cr_prep_time = JNull, cr_cook_time = JNull, cr_servings = JNull,
          cr_difficulty = ''Medium''\<rparr>"
    by code_simp
qed

section \<open>Properties of the instruction steps\<close>






lemma trim_ends:
  assumes "trim s \<noteq> []"
  shows "\<not> is_space (hd (trim s)) \<and> \<not> is_space (last (trim s))"
proof -
  let ?t = "dropWhile is_space s"
  let ?u = "dropWhile is_space (rev ?t)"
  have tu: "trim s = rev ?u" by (simp add: trim_def)
  with assms have u: "?u \<noteq> []" by simp
  then have "\<not> is_space (hd ?u)" by (rule hd_dropWhile)
  then have l: "\<not> is_space (last (trim s))" using u by (simp add: tu last_rev)
  have t: "?t \<noteq> []"
  proof
    assume e: "?t = []"
    have "?u = []" by (simp only: e rev.simps dropWhile.simps)
    with u show False by simp
  qed
  then have ht: "\<not> is_space (hd ?t)" by (rule hd_dropWhile)
  have "suffix ?u (rev ?t)" by (simp add: suffix_dropWhile)
  then obtain zs where "rev ?t = zs @ ?u" by (auto simp: suffix_def)
  then have "last (rev ?t) = last ?u" using u by (metis last_appendR)
  then have "hd ?t = last ?u" using t by (simp add: last_rev)
  then have "hd (trim s) = hd ?t" using u by (simp add: tu hd_rev)
  with ht l show ?thesis by simp
qed




































section \<open>Properties of \<open>checkDietaryConflicts\<close>\<close>

lemma js_includes_sublist: "js_includes s sub \<longleftrightarrow> sublist sub s"
  by (induction s) (auto simp: sublist_Cons_right)

lemma checkDietaryConflicts_foldl:
  "foldl (\<lambda>conflicts d.
        (case map_of dietaryRestrictions (toLowerCase d) of
           None \<Rightarrow> conflicts
         | Some forbiddenIngredients \<Rightarrow>
             (let found = conflictingIngredients forbiddenIngredients ingredients
              in if length found > 0
                 then conflicts @ [\<lparr>diet = d, conflict_ingredients = found\<rparr>]
                 else conflicts)))
       acc prefs = acc @ concat (map (diet_conflicts ingredients) prefs)"
  by (induction prefs arbitrary: acc) (auto simp: diet_conflicts_def Let_def split: option.splits)

lemma checkDietaryConflicts_concat:
  "checkDietaryConflicts prefs ingredients = concat (map (diet_conflicts ingredients) prefs)"
  unfolding checkDietaryConflicts_def by (simp add: checkDietaryConflicts_foldl)

lemma conflictingIngredients_iff:
  "ing \<in> set (conflictingIngredients forbiddenIngredients ingredients) \<longleftrightarrow>
   ing \<in> set ingredients \<and>
   (\<exists>forbidden \<in> set forbiddenIngredients. sublist (toLowerCase forbidden) (toLowerCase ing))"
  by (auto simp: conflictingIngredients_def list_ex_iff js_includes_sublist)

text \<open>
  C8. An ingredient is listed as conflicting with a dietary preference exactly when the
  preference was chosen, its lower-cased name has a table of forbidden ingredients, and some
  entry of that table, lower-cased, is a substring of the lower-cased ingredient. So
  ``butternut squash'' is reported under Dairy-Free, matched by ``butter'', though it names no
  dairy food.
\<close>

theorem checkDietaryConflicts_substring:
  "((\<exists>c \<in> set (checkDietaryConflicts dietaryPreferences ingredients).
        diet c = d \<and> ingredient \<in> set (conflict_ingredients c)) \<longleftrightarrow>
    (d \<in> set dietaryPreferences \<and> ingredient \<in> set ingredients \<and>
     (\<exists>forbiddenIngredients.
        map_of dietaryRestrictions (toLowerCase d) = Some forbiddenIngredients \<and>
        (\<exists>forbidden \<in> set forbiddenIngredients.
           sublist (toLowerCase forbidden) (toLowerCase ingredient))))) \<and>
   checkDietaryConflicts [''Dairy-Free''] [''butternut squash''] =
     [\<lparr>diet = ''Dairy-Free'', conflict_ingredients = [''butternut squash'']\<rparr>]"
proof
  show "(\<exists>c \<in> set (checkDietaryConflicts dietaryPreferences ingredients).
        diet c = d \<and> ingredient \<in> set (conflict_ingredients c)) \<longleftrightarrow>
    (d \<in> set dietaryPreferences \<and> ingredient \<in> set ingredients \<and>
     (\<exists>forbiddenIngredients.
        map_of dietaryRestrictions (toLowerCase d) = Some forbiddenIngredients \<and>
        (\<exists>forbidden \<in> set forbiddenIngredients.
           sublist (toLowerCase forbidden) (toLowerCase ingredient))))"
    (is "?flagged \<longleftrightarrow> ?matches")
  proof
    assume ?flagged
    then obtain c d' where c: "d' \<in> set dietaryPreferences" "c \<in> set (diet_conflicts ingredients d')"
      "diet c = d" "ingredient \<in> set (conflict_ingredients c)"
      by (auto simp: checkDietaryConflicts_concat)
    from c(2) obtain forbiddenIngredients where
      t: "map_of dietaryRestrictions (toLowerCase d') = Some forbiddenIngredients"
      and ceq: "c = \<lparr>diet = d', conflict_ingredients = conflictingIngredients forbiddenIngredients ingredients\<rparr>"
      by (cases "map_of dietaryRestrictions (toLowerCase d')")
        (auto simp: diet_conflicts_def split: if_splits)
    from ceq c(3) have dd: "d' = d" by simp
    from ceq c(4) have "ingredient \<in> set (conflictingIngredients forbiddenIngredients ingredients)"
      by simp
    with t c(1) dd show ?matches
      by (auto simp: conflictingIngredients_iff)
  next
    assume m: ?matches
    then obtain forbiddenIngredients where
      t: "map_of dietaryRestrictions (toLowerCase d) = Some forbiddenIngredients"
      and f: "\<exists>forbidden \<in> set forbiddenIngredients.
           sublist (toLowerCase forbidden) (toLowerCase ingredient)"
      by blast
    from m f have i: "ingredient \<in> set (conflictingIngredients forbiddenIngredients ingredients)"
      by (simp add: conflictingIngredients_iff)
    then have "conflictingIngredients forbiddenIngredients ingredients \<noteq> []"
      by auto
    with t have "diet_conflicts ingredients d =
       [\<lparr>diet = d, conflict_ingredients = conflictingIngredients forbiddenIngredients ingredients\<rparr>]"
      by (simp add: diet_conflicts_def)
    with m i show ?flagged
      by (auto simp: checkDietaryConflicts_concat intro!: bexI [of _ d])
  qed
next
  show "checkDietaryConflicts [''Dairy-Free''] [''butternut squash''] =
     [\<lparr>diet = ''Dairy-Free'', conflict_ingredients = [''butternut squash'']\<rparr>]"
    by code_simp
qed

theorem checkDietaryConflicts_substring_witness:
  "''Dairy-Free'' \<in> set [''Dairy-Free'', ''Keto''] \<and>
   ''butternut squash'' \<in> set [''rice'', ''butternut squash''] \<and>
   map_of dietaryRestrictions (toLowerCase ''Dairy-Free'') =
     Some [''milk'', ''cheese'', ''butter'', ''yogurt'', ''cream'', ''ice cream''] \<and>
   sublist (toLowerCase ''butter'') (toLowerCase ''butternut squash'') \<and>
   (\<exists>c \<in> set (checkDietaryConflicts [''Dairy-Free'', ''Keto''] [''rice'', ''butternut squash'']).
        diet c = ''Dairy-Free'' \<and> ''butternut squash'' \<in> set (conflict_ingredients c))"
proof -
  have a: "''Dairy-Free'' \<in> set [''Dairy-Free'', ''Keto'']" by simp
  have b: "''butternut squash'' \<in> set [''rice'', ''butternut squash'']" by simp
  have c: "map_of dietaryRestrictions (toLowerCase ''Dairy-Free'') =
     Some [''milk'', ''cheese'', ''butter'', ''yogurt'', ''cream'', ''ice cream'']"
    by code_simp
  have l: "toLowerCase ''butter'' = ''butter''"
    "toLowerCase ''butternut squash'' = ''butter'' @ ''nut squash''"
    by code_simp+
  have d: "sublist (toLowerCase ''butter'') (toLowerCase ''butternut squash'')"
    unfolding l by (rule sublist_append_rightI)
  have m: "''butter'' \<in> set [''milk'', ''cheese'', ''butter'', ''yogurt'', ''cream'', ''ice cream'']"
    by simp
  have e: "\<exists>c \<in> set (checkDietaryConflicts [''Dairy-Free'', ''Keto''] [''rice'', ''butternut squash'']).
        diet c = ''Dairy-Free'' \<and> ''butternut squash'' \<in> set (conflict_ingredients c)"
    using a b c d m 
      checkDietaryConflicts_substring [of "[''Dairy-Free'', ''Keto'']" "[''rice'', ''butternut squash'']"
        "''Dairy-Free''" "''butternut squash''"]
    by blast
  show ?thesis
    by (intro conjI a b c d e)
qed

section \<open>Properties of the ingredient list\<close>

lemma trim_trim: "trim (trim s) = trim s"
proof (cases "trim s = []")
  case True
  have "trim [] = []" by (simp add: trim_def)
  with True show ?thesis by simp
next
  case False
  let ?t = "trim s"
  from False trim_ends [of s] have h: "\<not> is_space (hd ?t)" and l: "\<not> is_space (last ?t)"
    by simp_all
  from False h have a: "dropWhile is_space ?t = ?t"
    by (cases ?t) auto
  from False l have "\<not> is_space (hd (rev ?t))"
    by (simp add: hd_rev)
  with False have b: "dropWhile is_space (rev ?t) = rev ?t"
    by (cases "rev ?t") auto
  show ?thesis
    unfolding trim_def [of ?t] a b by simp
qed

lemma addIngredient_list:
  "ingredients_list (addIngredient st (Some name)) =
     (if trim name \<noteq> [] \<and> trim name \<notin> set (ingredients_list st)
      then ingredients_list st @ [trim name] else ingredients_list st)"
  by (simp add: addIngredient_def Let_def)

lemma well_kept_step: "well_kept (ingredients_list st) \<Longrightarrow> well_kept (ingredients_list (apply_action st a))"
proof (cases a)
  case (Add name)
  assume "well_kept (ingredients_list st)"
  then show ?thesis
    by (auto simp: Add addIngredient_list well_kept_def trim_trim)
next
  case (Remove name)
  assume "well_kept (ingredients_list st)"
  then show ?thesis
    by (auto simp: Remove removeIngredient_def well_kept_def list_all_iff)
qed

lemma well_kept_run: "well_kept (ingredients_list st) \<Longrightarrow> well_kept (ingredients_list (foldl apply_action st acts))"
  by (induction acts arbitrary: st) (auto simp: well_kept_step)

text \<open>
  C7, as the code has it. The list of ingredients starts empty and is changed by adding and
  removing names. It never holds the same string twice, and every name in it is non-empty and
  trimmed. Adding a name whose trimmed form is empty or is already in the list, character for
  character, leaves the state unchanged; any other name is appended, trimmed, at the end.
  \<open>handleSubmit\<close> sends no request for an empty list, so the ingredients of a request
  are at least one.
\<close>

theorem addIngredient_exact_dedup:
  "well_kept (ingredients_list (foldl apply_action initial_input acts)) \<and>
   (trim name \<in> set (ingredients_list st) \<or> trim name = [] \<longrightarrow> addIngredient st (Some name) = st) \<and>
   (trim name \<notin> set (ingredients_list st) \<and> trim name \<noteq> [] \<longrightarrow>
      ingredients_list (addIngredient st (Some name)) = ingredients_list st @ [trim name]) \<and>
   handleSubmit [] prefs cuisine meal = None \<and>
   (\<forall>req. handleSubmit ings prefs cuisine meal = Some req \<longrightarrow>
      req_ingredients req = ings \<and> length (req_ingredients req) \<ge> 1)"
proof -
  have "well_kept (ingredients_list initial_input)"
    by (simp add: initial_input_def well_kept_def)
  then have a: "well_kept (ingredients_list (foldl apply_action initial_input acts))"
    by (rule well_kept_run)
  have b: "trim name \<in> set (ingredients_list st) \<or> trim name = [] \<longrightarrow> addIngredient st (Some name) = st"
    by (auto simp: addIngredient_def Let_def)
  have c: "trim name \<notin> set (ingredients_list st) \<and> trim name \<noteq> [] \<longrightarrow>
      ingredients_list (addIngredient st (Some name)) = ingredients_list st @ [trim name]"
    by (simp add: addIngredient_list)
  have d: "handleSubmit [] prefs cuisine meal = None"
    by (simp add: handleSubmit_def)
  have e: "\<forall>req. handleSubmit ings prefs cuisine meal = Some req \<longrightarrow>
      req_ingredients req = ings \<and> length (req_ingredients req) \<ge> 1"
    by (cases ings) (auto simp: handleSubmit_def)
  show ?thesis
    by (intro conjI a b c d e)
qed

theorem addIngredient_exact_dedup_witness:
  "trim '' rice '' \<in> set [''rice''] \<and>
   addIngredient \<lparr>ingredients_list = [''rice''], inputValue = '' rice '', showSuggestions = True\<rparr>
       (Some '' rice '') =
     \<lparr>ingredients_list = [''rice''], inputValue = '' rice '', showSuggestions = True\<rparr> \<and>
   trim ''Rice'' \<notin> set [''rice''] \<and> trim ''Rice'' \<noteq> [] \<and>
   ingredients_list (addIngredient
       \<lparr>ingredients_list = [''rice''], inputValue = [], showSuggestions = False\<rparr> (Some ''Rice'')) =
     [''rice''] @ [trim ''Rice''] \<and>
   handleSubmit [''rice''] [] [] [] =
     Some \<lparr>req_ingredients = [''rice''], req_dietary_preferences = [],
           req_cuisine_type = None, req_meal_type = None\<rparr> \<and>
   length (req_ingredients \<lparr>req_ingredients = [''rice''], req_dietary_preferences = [],
           req_cuisine_type = None, req_meal_type = None\<rparr>) \<ge> 1 \<and>
   trim (''rice'' @ [CHR 0xA0]) \<in> set [''rice''] \<and>
   addIngredient \<lparr>ingredients_list = [''rice''], inputValue = [], showSuggestions = False\<rparr>
       (Some (''rice'' @ [CHR 0xA0])) =
     \<lparr>ingredients_list = [''rice''], inputValue = [], showSuggestions = False\<rparr> \<and>
   trim [CHR 0xA0] = [] \<and>
   addIngredient \<lparr>ingredients_list = [''rice''], inputValue = [], showSuggestions = False\<rparr>
       (Some [CHR 0xA0]) =
     \<lparr>ingredients_list = [''rice''], inputValue = [], showSuggestions = False\<rparr>"
proof -
  let ?st = "\<lparr>ingredients_list = [''rice''], inputValue = '' rice '', showSuggestions = True\<rparr>"
  let ?st' = "\<lparr>ingredients_list = [''rice''], inputValue = [], showSuggestions = False\<rparr>"
  let ?req = "\<lparr>req_ingredients = [''rice''], req_dietary_preferences = [],
           req_cuisine_type = None, req_meal_type = None\<rparr>"
  have t: "trim '' rice '' = ''rice''" "trim ''Rice'' = ''Rice''"
    by code_simp+
  have a: "trim '' rice '' \<in> set [''rice'']"
    by (simp add: t)
  have a': "trim '' rice '' \<in> set (ingredients_list ?st)"
    by (simp add: t)
  have b: "addIngredient ?st (Some '' rice '') = ?st"
    using a' addIngredient_exact_dedup [of "[]" "'' rice ''" ?st] by blast
  have c: "trim ''Rice'' \<notin> set [''rice'']" and d: "trim ''Rice'' \<noteq> []"
    by (simp_all add: t)
  have c': "trim ''Rice'' \<notin> set (ingredients_list ?st') \<and> trim ''Rice'' \<noteq> []"
    by (simp add: t)
  have e: "ingredients_list (addIngredient ?st' (Some ''Rice'')) = [''rice''] @ [trim ''Rice'']"
    using c' addIngredient_exact_dedup [of "[]" "''Rice''" ?st'] by simp
  have f: "handleSubmit [''rice''] [] [] [] = Some ?req"
    by (simp add: handleSubmit_def)
  have g: "length (req_ingredients ?req) \<ge> 1"
    using f addIngredient_exact_dedup [of "[]" "[]" ?st "[]" "[]" "[]" "[''rice'']"] by blast
  have n: "trim (''rice'' @ [CHR 0xA0]) = ''rice''" "trim [CHR 0xA0] = []"
    by code_simp+
  have h: "trim (''rice'' @ [CHR 0xA0]) \<in> set [''rice'']"
    by (simp only: n) simp
  have h': "trim (''rice'' @ [CHR 0xA0]) \<in> set (ingredients_list ?st')"
    by (simp only: n) simp
  have i: "addIngredient ?st' (Some (''rice'' @ [CHR 0xA0])) = ?st'"
    using h' addIngredient_exact_dedup [where name = "''rice'' @ [CHR 0xA0]" and st = ?st']
    by blast
  have j: "trim [CHR 0xA0] = []"
    by (rule n)
  have k: "addIngredient ?st' (Some [CHR 0xA0]) = ?st'"
    using j addIngredient_exact_dedup [where name = "[CHR 0xA0]" and st = ?st']
    by blast
  show ?thesis
    by (intro conjI a b c d e f g h i j k)
qed

text \<open>
  The comparison is case-sensitive and nothing bounds the length: with ``tomato'' in the
  list, ``Tomato'' is added, and the thirty-one suggested names give a list of thirty-one.
\<close>

theorem addIngredient_case_counterexample:
  "toLowerCase ''Tomato'' = toLowerCase ''tomato'' \<and>
   ingredients_list (addIngredient
      \<lparr>ingredients_list = [''tomato''], inputValue = [], showSuggestions = False\<rparr> (Some ''Tomato'')) =
     [''tomato'', ''Tomato''] \<and>
   length (ingredients_list (foldl apply_action initial_input (map Add commonIngredients))) = 31"
proof (intro conjI)
  show "toLowerCase ''Tomato'' = toLowerCase ''tomato''" by code_simp
  show "ingredients_list (addIngredient
      \<lparr>ingredients_list = [''tomato''], inputValue = [], showSuggestions = False\<rparr> (Some ''Tomato'')) =
     [''tomato'', ''Tomato'']" by code_simp
  show "length (ingredients_list (foldl apply_action initial_input (map Add commonIngredients))) = 31"
    by code_simp
qed

section \<open>Properties of \<open>retryRequest\<close>, the browser's retry helper\<close>

lemma retryRequest_attempts:
  assumes "retryRequest requestFn n (c, w) = (out, c', w')"
  shows "c < c' \<and> c' \<le> c + n + 1 \<and> out = requestFn (c' - 1) \<and>
         w' = w + RETRY_DELAY * (c' - c - 1) \<and>
         (\<forall>k. c \<le> k \<and> k < c' - 1 \<longrightarrow> retryable_failure (requestFn k)) \<and>
         (c' < c + n + 1 \<longrightarrow> \<not> retryable_failure (requestFn (c' - 1)))"
  using assms
proof (induction n arbitrary: c w)
  case 0
  then show ?case by auto
next
  case (Suc n)
  show ?case
  proof (cases "retryable_failure (requestFn c)")
    case True
    then obtain e where e: "requestFn c = Inl e" "retryable e"
      by (auto simp: retryable_failure_def split: sum.splits)
    with Suc.prems have "retryRequest requestFn n (Suc c, w + RETRY_DELAY) = (out, c', w')"
      by simp
    from Suc.IH [OF this]
    have ih1: "Suc c < c'" and ih2: "c' \<le> Suc c + n + 1" and ih3: "out = requestFn (c' - 1)"
      and ih4: "w' = w + RETRY_DELAY + RETRY_DELAY * (c' - Suc c - 1)"
      and ih5: "\<forall>k. Suc c \<le> k \<and> k < c' - 1 \<longrightarrow> retryable_failure (requestFn k)"
      and ih6: "c' < Suc c + n + 1 \<longrightarrow> \<not> retryable_failure (requestFn (c' - 1))"
      by simp_all
    from ih1 have "c' - c - 1 = Suc (c' - Suc c - 1)"
      by arith
    then have "RETRY_DELAY * (c' - c - 1) = RETRY_DELAY + RETRY_DELAY * (c' - Suc c - 1)"
      by simp
    with ih4 have w: "w' = w + RETRY_DELAY * (c' - c - 1)"
      by simp
    have all: "\<forall>k. c \<le> k \<and> k < c' - 1 \<longrightarrow> retryable_failure (requestFn k)"
    proof (intro allI impI)
      fix k assume "c \<le> k \<and> k < c' - 1"
      then have "k = c \<or> (Suc c \<le> k \<and> k < c' - 1)" by arith
      with True ih5 show "retryable_failure (requestFn k)" by blast
    qed
    from ih1 have a: "c < c'" by simp
    from ih2 have b: "c' \<le> c + Suc n + 1" by simp
    from ih6 have d: "c' < c + Suc n + 1 \<longrightarrow> \<not> retryable_failure (requestFn (c' - 1))" by simp
    show ?thesis
      by (intro conjI a b ih3 w all d)
  next
    case False
    with Suc.prems have "out = requestFn c" "c' = Suc c" "w' = w"
      by (auto simp: retryable_failure_def split: sum.splits if_splits)
    with False show ?thesis by auto
  qed
qed

text \<open>
  The browser's wrapper around the application's own backend, which is not the generation
  client: one invocation of \<open>generateRecipes\<close> sends at least one and at most four posts
  (\<open>MAX_RETRIES + 1\<close>); every post before the last failed with a time-out or a status of 500
  or more, and one second was waited after each of them.
\<close>

lemma generateRecipes_attempts:
  assumes "generateRecipes post (calls, waited) = (out, calls', waited')"
  shows "calls + 1 \<le> calls' \<and> calls' \<le> calls + 4 \<and> out = post (calls' - 1) \<and>
         waited' = waited + 1000 * (calls' - calls - 1) \<and>
         (\<forall>k. calls \<le> k \<and> k < calls' - 1 \<longrightarrow> retryable_failure (post k)) \<and>
         (calls' = calls + 1 \<longleftrightarrow> \<not> retryable_failure (post calls)) \<and>
         (retryable_failure out \<longrightarrow> calls' = calls + 4)"
proof -
  from assms have "retryRequest post 3 (calls, waited) = (out, calls', waited')"
    by (simp add: generateRecipes_def MAX_RETRIES_def)
  from retryRequest_attempts [OF this]
  have a1: "calls < calls'" and a2: "calls' \<le> calls + 3 + 1" and a3: "out = post (calls' - 1)"
    and a4: "waited' = waited + RETRY_DELAY * (calls' - calls - 1)"
    and all: "\<forall>k. calls \<le> k \<and> k < calls' - 1 \<longrightarrow> retryable_failure (post k)"
    and last: "calls' < calls + 3 + 1 \<longrightarrow> \<not> retryable_failure (post (calls' - 1))"
    by simp_all
  have one: "calls' = calls + 1 \<longleftrightarrow> \<not> retryable_failure (post calls)"
  proof
    assume "calls' = calls + 1"
    with last show "\<not> retryable_failure (post calls)" by simp
  next
    assume n: "\<not> retryable_failure (post calls)"
    show "calls' = calls + 1"
    proof (rule ccontr)
      assume "calls' \<noteq> calls + 1"
      with a1 have "calls \<le> calls \<and> calls < calls' - 1" by arith
      with all have "retryable_failure (post calls)" by blast
      with n show False by simp
    qed
  qed
  have b1: "calls + 1 \<le> calls'" using a1 by simp
  have b2: "calls' \<le> calls + 4" using a2 by simp
  have b4: "waited' = waited + 1000 * (calls' - calls - 1)" using a4 by (simp add: RETRY_DELAY_def)
  have b7: "retryable_failure out \<longrightarrow> calls' = calls + 4"
    using a2 a3 last by auto
  show ?thesis
    by (intro conjI b1 b2 a3 b4 all one b7)
qed

section \<open>Properties of the batch endpoint\<close>

lemma gather_slots:
  assumes "length slots = length tasks"
  shows "length (foldl (\<lambda>slots i. if i < length tasks then slots[i := Some (tasks ! i)] else slots)
                  slots schedule) = length tasks \<and>
         (\<forall>i < length tasks.
            foldl (\<lambda>slots i. if i < length tasks then slots[i := Some (tasks ! i)] else slots)
                  slots schedule ! i =
            (if i \<in> set schedule then Some (tasks ! i) else slots ! i))"
  using assms
proof (induction schedule arbitrary: slots)
  case Nil
  then show ?case by simp
next
  case (Cons j schedule)
  let ?slots' = "if j < length tasks then slots[j := Some (tasks ! j)] else slots"
  have len: "length ?slots' = length tasks"
    using Cons.prems by simp
  have nth: "\<forall>i < length tasks. ?slots' ! i = (if i = j then Some (tasks ! i) else slots ! i)"
    using Cons.prems by (auto simp: nth_list_update)
  from Cons.IH [OF len] nth show ?case
    by (auto simp del: fun_upd_apply)
qed

lemma gather_complete:
  assumes "{..<length tasks} \<subseteq> set schedule"
  shows "gather schedule tasks = Some tasks"
proof -
  let ?r = "foldl (\<lambda>slots i. if i < length tasks then slots[i := Some (tasks ! i)] else slots)
                  (replicate (length tasks) None) schedule"
  from gather_slots [of "replicate (length tasks) None" tasks schedule]
  have len: "length ?r = length tasks"
    and nth: "\<forall>i < length tasks. ?r ! i = (if i \<in> set schedule then Some (tasks ! i) else None)"
    by simp_all
  from assms nth have full: "\<forall>i < length tasks. ?r ! i = Some (tasks ! i)"
    by auto
  with len have r: "?r = map Some tasks"
    by (intro nth_equalityI) simp_all
  show ?thesis
    unfolding gather_def Let_def r by (simp add: list_all_iff comp_def)
qed

lemma generate_multiple_recipes_complete:
  assumes "{..<length requests} \<subseteq> set schedule"
  shows "generate_multiple_recipes gen fallback schedule requests started =
     (Some (map (\<lambda>(i, req). case gen i (rd_ingredients req) (rd_cuisine_type req) of
                               Inl e \<Rightarrow> fallback | Inr rs \<Rightarrow> rs) (enumerate 0 requests)),
      started @ map (\<lambda>req. (rd_ingredients req, rd_cuisine_type req)) requests)"
proof -
  let ?tasks = "map (\<lambda>(i, req). gen i (rd_ingredients req) (rd_cuisine_type req)) (enumerate 0 requests)"
  have "length ?tasks = length requests" by simp
  with assms have "gather schedule ?tasks = Some ?tasks"
    by (intro gather_complete) simp
  then show ?thesis
    by (simp add: generate_multiple_recipes_def Let_def comp_def case_prod_unfold)
qed

text \<open>
  C5. A batch of more than five requests is answered with the error
  (\<open>HTTPException 400\<close>, ``Maximum 5 concurrent requests'') and the log of started
  generations is as it was: no generation is started for any request of the batch. (A batch
  of at most five requests does start one generation for each request, in their order.)
\<close>

theorem generate_recipes_batch_rejects:
  "(length requests > 5 \<longrightarrow>
      generate_recipes_batch gen fallback schedule requests started =
        (Some (Inl (HTTPException 400 ''Maximum 5 concurrent requests'')), started)) \<and>
   (length requests \<le> 5 \<longrightarrow>
      snd (generate_recipes_batch gen fallback schedule requests started) =
        started @ map (\<lambda>req. (rg_ingredients req, rg_cuisine_type req)) requests)"
proof (intro conjI impI)
  assume "length requests > 5"
  then show "generate_recipes_batch gen fallback schedule requests started =
        (Some (Inl (HTTPException 400 ''Maximum 5 concurrent requests'')), started)"
    by (simp add: generate_recipes_batch_def)
next
  assume "length requests \<le> 5"
  then show "snd (generate_recipes_batch gen fallback schedule requests started) =
        started @ map (\<lambda>req. (rg_ingredients req, rg_cuisine_type req)) requests"
    by (simp add: generate_recipes_batch_def generate_multiple_recipes_def Let_def comp_def
        split: option.splits)
qed

theorem generate_recipes_batch_rejects_witness:
  "length (replicate 6 \<lparr>rg_ingredients = [''rice''], rg_dietary_preferences = [],
                         rg_cuisine_type = None\<rparr>) > 5 \<and>
   generate_recipes_batch (\<lambda>i ings c. Inr [ings]) [] [0, 1, 2, 3, 4, 5]
       (replicate 6 \<lparr>rg_ingredients = [''rice''], rg_dietary_preferences = [],
                       rg_cuisine_type = None\<rparr>) [] =
     (Some (Inl (HTTPException 400 ''Maximum 5 concurrent requests'')), []) \<and>
   length [\<lparr>rg_ingredients = [''rice''], rg_dietary_preferences = [], rg_cuisine_type = None\<rparr>] \<le> 5 \<and>
   snd (generate_recipes_batch (\<lambda>i ings c. Inr [ings]) [] [0]
       [\<lparr>rg_ingredients = [''rice''], rg_dietary_preferences = [], rg_cuisine_type = None\<rparr>] []) =
     [([''rice''], None)]"
proof -
  let ?r = "\<lparr>rg_ingredients = [''rice''], rg_dietary_preferences = [], rg_cuisine_type = None\<rparr>"
  let ?gen = "\<lambda>(i::nat) (ings::string list) (c::string option). (Inr [ings] :: py_exception + string list list)"
  have a: "length (replicate 6 ?r) > 5" by simp
  have b: "generate_recipes_batch ?gen [] [0, 1, 2, 3, 4, 5] (replicate 6 ?r) [] =
     (Some (Inl (HTTPException 400 ''Maximum 5 concurrent requests'')), [])"
    using a generate_recipes_batch_rejects [of "replicate 6 ?r" ?gen "[]" "[0, 1, 2, 3, 4, 5]" "[]"]
    by blast
  have c: "length [?r] \<le> 5" by simp
  have d: "snd (generate_recipes_batch ?gen [] [0] [?r] []) = [([''rice''], None)]"
    using c generate_recipes_batch_rejects [of "[?r]" ?gen "[]" "[0]" "[]"]
    by simp
  show ?thesis
    by (intro conjI a b c d)
qed

text \<open>
  C6. For a batch of \<open>N\<close> requests, \<open>N\<close> at most five, whose generations all complete, in
  whatever order: the answer holds exactly \<open>N\<close> recipe sets, and the set at position \<open>i\<close>
  is the result of the generation for request \<open>i\<close>, or the fallback when that generation
  raised. It depends on no other request's outcome.
\<close>

theorem generate_recipes_batch_ordered:
  assumes "length requests \<le> 5" and "{..<length requests} \<subseteq> set schedule"
  shows "\<exists>sets. fst (generate_recipes_batch gen fallback schedule requests started) =
           Some (Inr \<lparr>recipe_sets = sets, total_recipes = sum_list (map length sets),
                      concurrent_processing = True\<rparr>) \<and>
         length sets = length requests \<and>
         (\<forall>i < length requests. sets ! i = result_for gen fallback requests i)"
proof -
  let ?dicts = "map (\<lambda>req. \<lparr>rd_ingredients = rg_ingredients req,
                              rd_cuisine_type = rg_cuisine_type req,
                              rd_dietary_preferences = rg_dietary_preferences req\<rparr>) requests"
  let ?sets = "map (\<lambda>(i, req). case gen i (rd_ingredients req) (rd_cuisine_type req) of
                               Inl e \<Rightarrow> fallback | Inr rs \<Rightarrow> rs) (enumerate 0 ?dicts)"
  from assms(2) have "{..<length ?dicts} \<subseteq> set schedule" by simp
  from generate_multiple_recipes_complete [OF this, of gen fallback started]
  have "fst (generate_recipes_batch gen fallback schedule requests started) =
           Some (Inr \<lparr>recipe_sets = ?sets, total_recipes = sum_list (map length ?sets),
                      concurrent_processing = True\<rparr>)"
    using assms(1) by (simp add: generate_recipes_batch_def)
  moreover have "length ?sets = length requests" by simp
  moreover have "\<forall>i < length requests. ?sets ! i = result_for gen fallback requests i"
    by (simp add: result_for_def nth_enumerate_eq)
  ultimately show ?thesis by blast
qed

theorem generate_recipes_batch_ordered_witness:
  "length [\<lparr>rg_ingredients = [''rice''], rg_dietary_preferences = [], rg_cuisine_type = None\<rparr>,
           \<lparr>rg_ingredients = [''beef''], rg_dietary_preferences = [], rg_cuisine_type = None\<rparr>,
           \<lparr>rg_ingredients = [''fish''], rg_dietary_preferences = [], rg_cuisine_type = None\<rparr>] \<le> 5 \<and>
   {..<length [\<lparr>rg_ingredients = [''rice''], rg_dietary_preferences = [], rg_cuisine_type = None\<rparr>,
           \<lparr>rg_ingredients = [''beef''], rg_dietary_preferences = [], rg_cuisine_type = None\<rparr>,
           \<lparr>rg_ingredients = [''fish''], rg_dietary_preferences = [], rg_cuisine_type = None\<rparr>]}
     \<subseteq> set [2, 0, 1] \<and>
   (\<exists>sets. fst (generate_recipes_batch
                   (\<lambda>i ings c. if i = 1 then Inl (GeminiAPIError 503) else Inr [ings])
                   [[''toast'']] [2, 0, 1]
                   [\<lparr>rg_ingredients = [''rice''], rg_dietary_preferences = [], rg_cuisine_type = None\<rparr>,
                    \<lparr>rg_ingredients = [''beef''], rg_dietary_preferences = [], rg_cuisine_type = None\<rparr>,
                    \<lparr>rg_ingredients = [''fish''], rg_dietary_preferences = [], rg_cuisine_type = None\<rparr>]
                   []) =
             Some (Inr \<lparr>recipe_sets = sets, total_recipes = sum_list (map length sets),
                        concurrent_processing = True\<rparr>) \<and>
           length sets = 3 \<and> sets ! 0 = [[''rice'']] \<and> sets ! 1 = [[''toast'']] \<and>
           sets ! 2 = [[''fish'']])"
proof -
  let ?reqs = "[\<lparr>rg_ingredients = [''rice''], rg_dietary_preferences = [], rg_cuisine_type = None\<rparr>,
           \<lparr>rg_ingredients = [''beef''], rg_dietary_preferences = [], rg_cuisine_type = None\<rparr>,
           \<lparr>rg_ingredients = [''fish''], rg_dietary_preferences = [], rg_cuisine_type = None\<rparr>]"
  let ?gen = "\<lambda>(i::nat) (ings::string list) (c::string option).
                if i = 1 then Inl (GeminiAPIError 503) else (Inr [ings] :: py_exception + string list list)"
  have a: "length ?reqs \<le> 5" by simp
  have b: "{..<length ?reqs} \<subseteq> set [2, 0, 1]" by auto
  have r: "result_for ?gen [[''toast'']] ?reqs 0 = [[''rice'']]"
    "result_for ?gen [[''toast'']] ?reqs 1 = [[''toast'']]"
    "result_for ?gen [[''toast'']] ?reqs 2 = [[''fish'']]"
    by (simp_all add: result_for_def)
  from generate_recipes_batch_ordered [OF a b, of ?gen "[[''toast'']]" "[]"]
  obtain sets where s: "fst (generate_recipes_batch ?gen [[''toast'']] [2, 0, 1] ?reqs []) =
             Some (Inr \<lparr>recipe_sets = sets, total_recipes = sum_list (map length sets),
                        concurrent_processing = True\<rparr>)"
    "length sets = length ?reqs"
    "\<forall>i < length ?reqs. sets ! i = result_for ?gen [[''toast'']] ?reqs i"
    by blast
  from s(3) have "sets ! 0 = result_for ?gen [[''toast'']] ?reqs 0"
    "sets ! 1 = result_for ?gen [[''toast'']] ?reqs 1"
    "sets ! 2 = result_for ?gen [[''toast'']] ?reqs 2"
    by simp_all
  with r have "sets ! 0 = [[''rice'']]" "sets ! 1 = [[''toast'']]" "sets ! 2 = [[''fish'']]"
    by simp_all
  with s(1,2) have "\<exists>sets. fst (generate_recipes_batch ?gen [[''toast'']] [2, 0, 1] ?reqs []) =
             Some (Inr \<lparr>recipe_sets = sets, total_recipes = sum_list (map length sets),
                        concurrent_processing = True\<rparr>) \<and>
           length sets = 3 \<and> sets ! 0 = [[''rice'']] \<and> sets ! 1 = [[''toast'']] \<and>
           sets ! 2 = [[''fish'']]"
    by auto
  with a b show ?thesis by blast
qed

section \<open>Properties of the generation service\<close>

text \<open>
  C1, as the code has it. In the graceful-degradation chain nothing is raised: the result is
  the list of the asynchronous call, else the list of the synchronous call, else the static
  fallback list, and the endpoint answers it with status ``success'' and logs a success; the
  answer holds the recipes and the status and nothing else. In the service layer a time-out
  of the call is answered with the fallback list. An exception that reaches the endpoint is
  logged and answered with \<open>HTTPException 500\<close>, ``Generation failed''.
\<close>

theorem generate_recipes_degrades:
  "generate_recipes_endpoint (generate_recipes_graceful async_call sync_fallback fallback) =
     (let rs = (case async_call of
                  Inr recipes \<Rightarrow> recipes
                | Inl e \<Rightarrow> (case sync_fallback of Inr recipes \<Rightarrow> recipes | Inl e' \<Rightarrow> fallback))
      in (Inr \<lparr>resp_recipes = rs, resp_status = ''success''\<rparr>, LogSuccess (length rs))) \<and>
   generate_recipes_graceful (Inl e1) (Inl e2) fallback = Inr fallback \<and>
   generate_recipes_endpoint (generate_recipes (Inl TimeoutError) fallback) =
     (Inr \<lparr>resp_recipes = fallback, resp_status = ''success''\<rparr>, LogSuccess (length fallback)) \<and>
   generate_recipes_endpoint (Inl e :: py_exception + 'a list) =
     (Inl (HTTPException 500 ''Generation failed''), LogFailure e)"
  by (simp add: generate_recipes_endpoint_def generate_recipes_graceful_def
      generate_recipes_def Let_def split: sum.splits)

text \<open>
  The answer to a request whose provider calls both failed is the answer to a request whose
  provider call succeeded with the same recipes: it names no error and no source.
\<close>

theorem generate_recipes_error_counterexample:
  "generate_recipes_endpoint
     (generate_recipes_graceful (Inl ClientError) (Inl TimeoutError) [''Rice bowl'']) =
     (Inr \<lparr>resp_recipes = [''Rice bowl''], resp_status = ''success''\<rparr>, LogSuccess 1) \<and>
   generate_recipes_endpoint
     (generate_recipes_graceful (Inr [''Rice bowl'']) (Inl TimeoutError) [''Toast'']) =
     (Inr \<lparr>resp_recipes = [''Rice bowl''], resp_status = ''success''\<rparr>, LogSuccess 1)"
  by (simp add: generate_recipes_endpoint_def generate_recipes_graceful_def)

section \<open>Properties of the circuit breaker\<close>

lemma breaker_step_allowed:
  "state (breaker_step cb e) \<noteq> state cb \<Longrightarrow> allowed_transition cb e (state (breaker_step cb e))"
  by (cases e; cases "state cb")
    (auto simp: before_call_def should_attempt_reset_def on_success_def on_failure_def
      split: if_splits)

lemma breaker_step_config:
  "failure_threshold (breaker_step cb e) = failure_threshold cb \<and>
   recovery_timeout (breaker_step cb e) = recovery_timeout cb"
  by (cases e; cases "state cb")
    (auto simp: before_call_def on_success_def on_failure_def)

lemma run_breaker_snoc: "run_breaker F T (es @ [e]) = breaker_step (run_breaker F T es) e"
  by (simp add: run_breaker_def)

lemma consecutive_failures_snoc:
  "consecutive_failures (es @ [e]) =
     (case e of OnSuccess \<Rightarrow> 0
      | OnFailure now \<Rightarrow> Suc (consecutive_failures es)
      | BeforeCall now \<Rightarrow> consecutive_failures es)"
  by (cases e) (simp_all add: consecutive_failures_def)

lemma run_breaker_invariant:
  assumes "0 < F"
  shows "failure_threshold (run_breaker F T es) = F \<and>
         recovery_timeout (run_breaker F T es) = T \<and>
         (state (run_breaker F T es) = CLOSED \<longrightarrow>
            failure_count (run_breaker F T es) = consecutive_failures es \<and>
            failure_count (run_breaker F T es) < F)"
proof (induction es rule: rev_induct)
  case Nil
  from assms show ?case
    by (simp add: run_breaker_def init_breaker_def consecutive_failures_def)
next
  case (snoc e es)
  let ?cb = "run_breaker F T es"
  from snoc have cfg: "failure_threshold ?cb = F" "recovery_timeout ?cb = T"
    and closed: "state ?cb = CLOSED \<longrightarrow>
            failure_count ?cb = consecutive_failures es \<and> failure_count ?cb < F"
    by blast+
  have c1: "failure_threshold (breaker_step ?cb e) = F" "recovery_timeout (breaker_step ?cb e) = T"
    using cfg breaker_step_config [of ?cb e] by simp_all
  have c2: "state (breaker_step ?cb e) = CLOSED \<longrightarrow>
            failure_count (breaker_step ?cb e) = consecutive_failures (es @ [e]) \<and>
            failure_count (breaker_step ?cb e) < F"
    using cfg closed assms
    by (cases e; cases "state ?cb")
      (auto simp: consecutive_failures_snoc before_call_def on_success_def on_failure_def
        split: if_splits)
  show ?case
    unfolding run_breaker_snoc by (intro conjI c1 c2)
qed

lemma fresh_failures:
  assumes "0 < F" "n \<le> F"
  shows "state (run_breaker F T (replicate n (OnFailure now))) = (if n = F then OPEN else CLOSED) \<and>
         failure_count (run_breaker F T (replicate n (OnFailure now))) = n"
  using assms(2)
proof (induction n)
  case 0
  with assms(1) show ?case
    by (simp add: run_breaker_def init_breaker_def)
next
  case (Suc n)
  let ?cb = "run_breaker F T (replicate n (OnFailure now))"
  from Suc have st: "state ?cb = CLOSED" "failure_count ?cb = n"
    by simp_all
  have th: "failure_threshold ?cb = F"
    using run_breaker_invariant [OF assms(1)] by simp
  have "replicate (Suc n) (OnFailure now) = replicate n (OnFailure now) @ [OnFailure now]"
    by (simp add: replicate_append_same)
  then have "run_breaker F T (replicate (Suc n) (OnFailure now)) = on_failure ?cb now"
    by (simp only: run_breaker_snoc breaker_step.simps)
  with st th Suc.prems show ?case
    by (auto simp: on_failure_def)
qed

lemma call_as_events:
  "snd (call cb now finished func) =
     (case before_call cb now of
        (Rejected, cb') \<Rightarrow> cb'
      | (Allowed, cb') \<Rightarrow>
          breaker_step cb' (case func of Inr result \<Rightarrow> OnSuccess | Inl e \<Rightarrow> OnFailure finished))"
  by (simp add: call_def split: prod.splits admission.splits sum.splits)

text \<open>
  C4. From a breaker made with a threshold \<open>F\<close> (at least one) and a cool-down \<open>T\<close>, after
  any sequence of the events \<open>beforeCall\<close>, \<open>onSuccess\<close>, \<open>onFailure\<close>: an event that
  changes the state makes one of the four transitions. Closed becomes Open on a failure
  exactly when it is the \<open>F\<close>-th failure since the last success; Open becomes HalfOpen on
  \<open>beforeCall\<close> exactly when the cool-down has passed since the failure that opened it, and
  before that the call is rejected and the breaker stays as it is; HalfOpen becomes Closed on
  a success and Open on a failure. A fresh breaker is Open after \<open>F\<close> failures and Closed
  after fewer.
\<close>

theorem circuit_breaker_transitions:
  fixes F T :: nat and es :: "breaker_event list"
  assumes "0 < F"
  defines "cb \<equiv> run_breaker F T es"
  shows
   "(state (breaker_step cb e) \<noteq> state cb \<longrightarrow>
       allowed_transition cb e (state (breaker_step cb e))) \<and>
    (state cb = CLOSED \<longrightarrow>
       (state (breaker_step cb (OnFailure now)) = OPEN \<longleftrightarrow> consecutive_failures es + 1 = F) \<and>
       state (breaker_step cb OnSuccess) = CLOSED \<and>
       before_call cb now = (Allowed, cb)) \<and>
    (state cb = OPEN \<longrightarrow>
       (state (breaker_step cb (BeforeCall now)) = HALF_OPEN \<longleftrightarrow>
          now \<ge> last_failure_time cb + T) \<and>
       (now < last_failure_time cb + T \<longrightarrow> before_call cb now = (Rejected, cb)) \<and>
       breaker_step cb OnSuccess = cb \<and> breaker_step cb (OnFailure now) = cb) \<and>
    (state cb = HALF_OPEN \<longrightarrow>
       state (breaker_step cb OnSuccess) = CLOSED \<and>
       state (breaker_step cb (OnFailure now)) = OPEN \<and>
       before_call cb now = (Allowed, cb)) \<and>
    state (run_breaker F T (replicate F (OnFailure now))) = OPEN \<and>
    (n < F \<longrightarrow> state (run_breaker F T (replicate n (OnFailure now))) = CLOSED)"
proof -
  from run_breaker_invariant [OF assms(1), of T es]
  have th: "failure_threshold cb = F" and rt: "recovery_timeout cb = T"
    and closed: "state cb = CLOSED \<longrightarrow>
            failure_count cb = consecutive_failures es \<and> failure_count cb < F"
    unfolding cb_def by blast+
  have a: "state (breaker_step cb e) \<noteq> state cb \<longrightarrow>
       allowed_transition cb e (state (breaker_step cb e))"
    using breaker_step_allowed by blast
  have b: "state cb = CLOSED \<longrightarrow>
       (state (breaker_step cb (OnFailure now)) = OPEN \<longleftrightarrow> consecutive_failures es + 1 = F) \<and>
       state (breaker_step cb OnSuccess) = CLOSED \<and>
       before_call cb now = (Allowed, cb)"
    using th closed by (auto simp: on_failure_def on_success_def before_call_def)
  have c: "state cb = OPEN \<longrightarrow>
       (state (breaker_step cb (BeforeCall now)) = HALF_OPEN \<longleftrightarrow>
          now \<ge> last_failure_time cb + T) \<and>
       (now < last_failure_time cb + T \<longrightarrow> before_call cb now = (Rejected, cb)) \<and>
       breaker_step cb OnSuccess = cb \<and> breaker_step cb (OnFailure now) = cb"
    using rt by (auto simp: before_call_def should_attempt_reset_def on_success_def on_failure_def)
  have d: "state cb = HALF_OPEN \<longrightarrow>
       state (breaker_step cb OnSuccess) = CLOSED \<and>
       state (breaker_step cb (OnFailure now)) = OPEN \<and>
       before_call cb now = (Allowed, cb)"
    by (auto simp: on_success_def on_failure_def before_call_def)
  have e: "state (run_breaker F T (replicate F (OnFailure now))) = OPEN"
    using fresh_failures [OF assms(1), of F T now] by simp
  have f: "n < F \<longrightarrow> state (run_breaker F T (replicate n (OnFailure now))) = CLOSED"
    using fresh_failures [OF assms(1), of n T now] by simp
  show ?thesis
    by (intro conjI a b c d e f)
qed

theorem circuit_breaker_transitions_witness:
  "(0::nat) < 3 \<and>
   state (run_breaker 3 30 [OnFailure 1, OnFailure 2]) = CLOSED \<and>
   consecutive_failures [OnFailure 1, OnFailure 2] + 1 = 3 \<and>
   state (breaker_step (run_breaker 3 30 [OnFailure 1, OnFailure 2]) (OnFailure 5)) = OPEN \<and>
   state (breaker_step (run_breaker 3 30 [OnFailure 1, OnFailure 2]) (OnFailure 5)) \<noteq>
     state (run_breaker 3 30 [OnFailure 1, OnFailure 2]) \<and>
   allowed_transition (run_breaker 3 30 [OnFailure 1, OnFailure 2]) (OnFailure 5) OPEN \<and>
   state (run_breaker 3 30 [OnFailure 1, OnFailure 2, OnFailure 5]) = OPEN \<and>
   (34::nat) < last_failure_time (run_breaker 3 30 [OnFailure 1, OnFailure 2, OnFailure 5]) + 30 \<and>
   before_call (run_breaker 3 30 [OnFailure 1, OnFailure 2, OnFailure 5]) 34 =
     (Rejected, run_breaker 3 30 [OnFailure 1, OnFailure 2, OnFailure 5]) \<and>
   state (run_breaker 3 30 [OnFailure 1, OnFailure 2, OnFailure 5, BeforeCall 35]) = HALF_OPEN \<and>
   state (breaker_step (run_breaker 3 30 [OnFailure 1, OnFailure 2, OnFailure 5, BeforeCall 35])
            OnSuccess) = CLOSED \<and>
   (2::nat) < 3 \<and> state (run_breaker 3 30 (replicate 2 (OnFailure 0))) = CLOSED"
proof -
  let ?es2 = "[OnFailure 1, OnFailure 2]"
  let ?es3 = "[OnFailure 1, OnFailure 2, OnFailure 5]"
  let ?es4 = "[OnFailure 1, OnFailure 2, OnFailure 5, BeforeCall 35]"
  have pos: "(0::nat) < 3" by simp
  have s2: "state (run_breaker 3 30 ?es2) = CLOSED" by code_simp
  have cf: "consecutive_failures ?es2 + 1 = 3" by code_simp
  note t2 = circuit_breaker_transitions [OF pos, of 30 ?es2 "OnFailure 5" 5 2]
  have o: "state (breaker_step (run_breaker 3 30 ?es2) (OnFailure 5)) = OPEN"
    using t2 s2 cf by blast
  have ne: "state (breaker_step (run_breaker 3 30 ?es2) (OnFailure 5)) \<noteq> state (run_breaker 3 30 ?es2)"
    using o s2 by simp
  have al: "allowed_transition (run_breaker 3 30 ?es2) (OnFailure 5) OPEN"
    using t2 ne o by metis
  have s3: "state (run_breaker 3 30 ?es3) = OPEN" by code_simp
  have lt: "(34::nat) < last_failure_time (run_breaker 3 30 ?es3) + 30" by code_simp
  note t3 = circuit_breaker_transitions [OF pos, of 30 ?es3 "BeforeCall 34" 34 2]
  have rj: "before_call (run_breaker 3 30 ?es3) 34 = (Rejected, run_breaker 3 30 ?es3)"
    using t3 s3 lt by blast
  have s4: "state (run_breaker 3 30 ?es4) = HALF_OPEN" by code_simp
  note t4 = circuit_breaker_transitions [OF pos, of 30 ?es4 OnSuccess 36 2]
  have cl: "state (breaker_step (run_breaker 3 30 ?es4) OnSuccess) = CLOSED"
    using t4 s4 by blast
  have two: "(2::nat) < 3" by simp
  have fr: "state (run_breaker 3 30 (replicate 2 (OnFailure 0))) = CLOSED"
    using two circuit_breaker_transitions [OF pos, of 30 "[]" OnSuccess 0 2]
    by blast
  show ?thesis
    by (intro conjI pos s2 cf o ne al s3 lt rj s4 cl two fr)
qed

section \<open>Properties of the parser and of the generation client\<close>








end
